theory Spec2Isabelle
  imports Main
begin

section \<open>EPC reconciliation of the inventory scan screen\<close>

text \<open>
  A shallow embedding of \<^verbatim>\<open>src/screens/InventoryScanScreen.tsx\<close> (the component
  \<^verbatim>\<open>InventoryScanScreen\<close>) and of the types it uses from the repository's type file.
  The React state of the component is a record that every handler takes and returns.
  The registry lookup \<^verbatim>\<open>checkEpcInInventory\<close> lives in \<^verbatim>\<open>services/api\<close>, which is not
  among the sources, so it is a parameter of the model.
\<close>

subsection \<open>Types\<close>

text \<open>\<^verbatim>\<open>interface AssetInfo { assetId; assetType; assetName }\<close>\<close>

record AssetInfo =
  assetId :: string
  assetType :: string
  assetName :: string

text \<open>
  \<^verbatim>\<open>interface InventoryItem\<close>. Its first three fields have the names of the fields of
  \<^verbatim>\<open>AssetInfo\<close>; they carry the prefix \<open>item_\<close> here. The two quantities are display
  values and take no part in the reconciliation.
\<close>

record InventoryItem =
  item_assetId :: string
  item_assetType :: string
  item_assetName :: string
  quantityRequired :: nat
  quantityScanned :: nat
  expectedEpcs :: "string list"

text \<open>The union \<^verbatim>\<open>'valid' | 'surplus' | 'error_not_found'\<close> of \<^verbatim>\<open>ScannedInventoryEPC.status\<close>.\<close>

datatype LookupStatus = status_valid | status_surplus | status_error_not_found

text \<open>\<^verbatim>\<open>interface ScannedInventoryEPC { epc; status; assetInfo? }\<close>\<close>

record ScannedInventoryEPC =
  epc :: string
  status :: LookupStatus
  assetInfo :: "AssetInfo option"

text \<open>\<^verbatim>\<open>type UIStatus\<close>\<close>

datatype UIStatus =
  valid | invalid_duplicate | invalid_wrong_asset | invalid_surplus | invalid_not_found

text \<open>\<^verbatim>\<open>interface ScannedEpcUI extends ScannedInventoryEPC { uiStatus }\<close>\<close>

record ScannedEpcUI = ScannedInventoryEPC +
  uiStatus :: UIStatus

text \<open>The three tabs of \<^verbatim>\<open>activeTab\<close>.\<close>

datatype Tab = tab_valid | tab_surplus | tab_error

text \<open>
  The \<^verbatim>\<open>useState\<close> cells of the component that the scan handlers read and write.
\<close>

record Screen =
  activeTab :: Tab
  scannedEPCs :: "ScannedEpcUI list"
  isProcessing :: bool
  swipedInvalidEpc :: "string option"

text \<open>The state of a freshly opened screen: the initial values of the \<^verbatim>\<open>useState\<close> calls.\<close>

definition initialScreen :: Screen where
  "initialScreen =
     \<lparr>activeTab = tab_valid, scannedEPCs = [], isProcessing = False, swipedInvalidEpc = None\<rparr>"

text \<open>
  The promise returned by \<^verbatim>\<open>checkEpcInInventory(epc, taskId)\<close> either fulfils with a
  \<^verbatim>\<open>ScannedInventoryEPC\<close> or rejects. A rejection is \<open>Inl LookupFailure\<close>.
\<close>

datatype error = LookupFailure

type_synonym Registry = "string \<Rightarrow> string \<Rightarrow> error + ScannedInventoryEPC"

text \<open>How an \<^verbatim>\<open>async\<close> handler ended: its promise resolved, or it rejected with an error.\<close>

datatype Outcome = Resolved | Rejected error

subsection \<open>The three buckets\<close>

text \<open>The \<^verbatim>\<open>useMemo\<close> filters \<^verbatim>\<open>validScans\<close>, \<^verbatim>\<open>surplusScans\<close> and \<^verbatim>\<open>errorScans\<close>.\<close>

definition validScans :: "Screen \<Rightarrow> ScannedEpcUI list" where
  "validScans s = filter (\<lambda>r. uiStatus r = valid) (scannedEPCs s)"

definition surplusScans :: "Screen \<Rightarrow> ScannedEpcUI list" where
  "surplusScans s =
     filter (\<lambda>r. uiStatus r = invalid_surplus \<or> uiStatus r = invalid_wrong_asset) (scannedEPCs s)"

definition errorScans :: "Screen \<Rightarrow> ScannedEpcUI list" where
  "errorScans s = filter (\<lambda>r. uiStatus r = invalid_not_found) (scannedEPCs s)"

text \<open>
  The arguments of \<^verbatim>\<open>onConfirmScan(taskId, item.assetId, validScans.length)\<close> in
  \<^verbatim>\<open>renderPopup\<close>: the third one is the confirmed count.
\<close>

definition onConfirmArgs :: "string \<Rightarrow> InventoryItem \<Rightarrow> Screen \<Rightarrow> string \<times> string \<times> nat" where
  "onConfirmArgs taskId item s = (taskId, item_assetId item, length (validScans s))"

subsection \<open>The scan handler\<close>

text \<open>
  \<^verbatim>\<open>[...new Set(xs)]\<close>: a JavaScript \<^verbatim>\<open>Set\<close> keeps its members in insertion order and
  ignores the insertion of a member it has. \<open>setAddAll acc xs\<close> inserts \<open>xs\<close> from
  left to right into the set whose members, in order, are \<open>acc\<close>.
\<close>

fun setAddAll :: "string list \<Rightarrow> string list \<Rightarrow> string list" where
  "setAddAll acc [] = acc"
| "setAddAll acc (x # xs) = setAddAll (if x \<in> set acc then acc else acc @ [x]) xs"

text \<open>
  The \<^verbatim>\<open>if\<close> chain of lines 138 to 146. \<^verbatim>\<open>result.assetInfo?.assetId\<close> is \<^verbatim>\<open>undefined\<close>
  when the result has no \<^verbatim>\<open>assetInfo\<close>, and \<^verbatim>\<open>undefined !== item.assetId\<close> holds then.
\<close>

definition classify :: "InventoryItem \<Rightarrow> ScannedInventoryEPC \<Rightarrow> UIStatus" where
  "classify item result =
     (if status result = status_error_not_found then invalid_not_found
      else if status result = status_surplus then invalid_surplus
      else if map_option assetId (assetInfo result) \<noteq> Some (item_assetId item)
        then invalid_wrong_asset
      else valid)"

text \<open>
  The object literal \<^verbatim>\<open>{ epc, ...result, uiStatus }\<close> of line 147. The spread of
  \<^verbatim>\<open>result\<close> comes after \<^verbatim>\<open>epc\<close>, and \<^verbatim>\<open>result\<close> has an \<^verbatim>\<open>epc\<close> field of its own, so
  the record carries the \<^verbatim>\<open>epc\<close> of the result, not the scanned one (the two are the
  same string when the registry answers about the EPC it was asked about).
\<close>

definition scanRecord :: "string \<Rightarrow> ScannedInventoryEPC \<Rightarrow> UIStatus \<Rightarrow> ScannedEpcUI" where
  "scanRecord scanned result ui =
     \<lparr>epc = epc result, status = status result, assetInfo = assetInfo result, uiStatus = ui\<rparr>"

text \<open>
  The \<^verbatim>\<open>for\<close> loop of lines 129 to 149 over \<^verbatim>\<open>uniqueEpcs\<close>, with the two locals it
  mutates: the set \<^verbatim>\<open>currentEpcs\<close> and the array \<^verbatim>\<open>newScans\<close>. A rejected lookup throws at
  the \<^verbatim>\<open>await\<close>; nothing catches it, so the loop ends there.
\<close>

fun scanLoop ::
  "Registry \<Rightarrow> InventoryItem \<Rightarrow> string \<Rightarrow> string list \<Rightarrow> string set \<Rightarrow> ScannedEpcUI list
     \<Rightarrow> error + ScannedEpcUI list" where
  "scanLoop checkEpcInInventory item taskId [] currentEpcs newScans = Inr newScans"
| "scanLoop checkEpcInInventory item taskId (e # es) currentEpcs newScans =
     (if e \<in> currentEpcs then scanLoop checkEpcInInventory item taskId es currentEpcs newScans
      else
        (case checkEpcInInventory e taskId of
           Inl err \<Rightarrow> Inl err
         | Inr result \<Rightarrow>
             scanLoop checkEpcInInventory item taskId es (insert e currentEpcs)
               (newScans @ [scanRecord e result (classify item result)])))"

text \<open>Lines 119 to 125: the EPCs of the batch, followed by the ones the handler adds.\<close>

definition mockNewEpcs :: "InventoryItem \<Rightarrow> string list \<Rightarrow> string list" where
  "mockNewEpcs item epcs =
     epcs @ take 2 (expectedEpcs item) @ [''EPC-E5-001'', ''EPC-A1-001'', ''UNKNOWN-EPC-123'']"

definition uniqueEpcs :: "InventoryItem \<Rightarrow> string list \<Rightarrow> string list" where
  "uniqueEpcs item epcs = setAddAll [] (mockNewEpcs item epcs)"

text \<open>
  Lines 115 to 149: what the local \<^verbatim>\<open>newScans\<close> holds when the loop is over, the
  records that the call adds to the session.
\<close>

definition newScans ::
  "Registry \<Rightarrow> InventoryItem \<Rightarrow> string \<Rightarrow> string list \<Rightarrow> Screen \<Rightarrow> error + ScannedEpcUI list" where
  "newScans checkEpcInInventory item taskId epcs s =
     scanLoop checkEpcInInventory item taskId (uniqueEpcs item epcs)
       (set (map epc (scannedEPCs s))) []"

text \<open>
  \<^verbatim>\<open>handleScanResults(epcs)\<close> of the current render, run to its end on the state \<open>s\<close>:
  the handler that \<^verbatim>\<open>useCallback\<close> made for the state \<open>s\<close>, so that the \<^verbatim>\<open>scannedEPCs\<close>
  of its closure (line 116) and the \<^verbatim>\<open>prevScans\<close> of the updater (line 152) are both the
  session of \<open>s\<close>. The result is how the call ended and the state it leaves. When a
  lookup rejects, the statements after the loop do not run: of the whole call only
  \<^verbatim>\<open>setIsProcessing(true)\<close> has taken effect.
\<close>

definition handleScanResults ::
  "Registry \<Rightarrow> InventoryItem \<Rightarrow> string \<Rightarrow> string list \<Rightarrow> Screen \<Rightarrow> Outcome \<times> Screen" where
  "handleScanResults checkEpcInInventory item taskId epcs s =
     (if length epcs = 0 then (Resolved, s)
      else
        let s1 = s\<lparr>isProcessing := True\<rparr> in
        (case newScans checkEpcInInventory item taskId epcs s of
           Inl err \<Rightarrow> (Rejected err, s1)
         | Inr new \<Rightarrow>
             let s2 = (if length new > 0 then s1\<lparr>scannedEPCs := scannedEPCs s1 @ new\<rparr> else s1);
                 hasError = list_ex (\<lambda>r. uiStatus r = invalid_not_found) new;
                 hasSurplus =
                   list_ex (\<lambda>r. uiStatus r = invalid_surplus \<or> uiStatus r = invalid_wrong_asset) new;
                 s3 = (if hasError then s2\<lparr>activeTab := tab_error\<rparr>
                       else if hasSurplus then s2\<lparr>activeTab := tab_surplus\<rparr>
                       else s2)
             in (Resolved, s3\<lparr>isProcessing := False\<rparr>)))"

text \<open>
  The handler that an earlier render made, called on the state \<open>s\<close>. The closure holds
  the \<^verbatim>\<open>scannedEPCs\<close> of the render that made the handler, here \<open>capturedScans\<close>: the
  set \<^verbatim>\<open>currentEpcs\<close> of line 116 is built from it. The updater of line 152 gets the
  session that the screen has when the call ends, the one of \<open>s\<close>. The screen hands the
  handler out at line 168, as \<^verbatim>\<open>onScanComplete\<close>.
\<close>

definition capturedHandleScanResults ::
  "Registry \<Rightarrow> InventoryItem \<Rightarrow> string \<Rightarrow> ScannedEpcUI list \<Rightarrow> string list \<Rightarrow> Screen
     \<Rightarrow> Outcome \<times> Screen" where
  "capturedHandleScanResults checkEpcInInventory item taskId capturedScans epcs s =
     (if length epcs = 0 then (Resolved, s)
      else
        let s1 = s\<lparr>isProcessing := True\<rparr> in
        (case scanLoop checkEpcInInventory item taskId (uniqueEpcs item epcs)
                (set (map epc capturedScans)) [] of
           Inl err \<Rightarrow> (Rejected err, s1)
         | Inr new \<Rightarrow>
             let s2 = (if length new > 0 then s1\<lparr>scannedEPCs := scannedEPCs s1 @ new\<rparr> else s1);
                 hasError = list_ex (\<lambda>r. uiStatus r = invalid_not_found) new;
                 hasSurplus =
                   list_ex (\<lambda>r. uiStatus r = invalid_surplus \<or> uiStatus r = invalid_wrong_asset) new;
                 s3 = (if hasError then s2\<lparr>activeTab := tab_error\<rparr>
                       else if hasSurplus then s2\<lparr>activeTab := tab_surplus\<rparr>
                       else s2)
             in (Resolved, s3\<lparr>isProcessing := False\<rparr>)))"

subsection \<open>Deleting a record\<close>

text \<open>\<^verbatim>\<open>handleDeleteInvalidScan(epcToDelete)\<close>\<close>

definition handleDeleteInvalidScan :: "string \<Rightarrow> Screen \<Rightarrow> Screen" where
  "handleDeleteInvalidScan epcToDelete s =
     s\<lparr>scannedEPCs := filter (\<lambda>r. epc r \<noteq> epcToDelete) (scannedEPCs s),
       swipedInvalidEpc := None\<rparr>"

subsection \<open>Sessions that the screen can reach\<close>

text \<open>
  The states of one screen (one registry, one item, one task) after any number of scan
  batches and deletions, from the freshly opened screen.
\<close>

inductive reachable :: "Registry \<Rightarrow> InventoryItem \<Rightarrow> string \<Rightarrow> Screen \<Rightarrow> bool"
  for checkEpcInInventory :: Registry and item :: InventoryItem and taskId :: string where
  reach_initial: "reachable checkEpcInInventory item taskId initialScreen"
| reach_scan:
    "reachable checkEpcInInventory item taskId s \<Longrightarrow>
     reachable checkEpcInInventory item taskId
       (snd (handleScanResults checkEpcInInventory item taskId epcs s))"
| reach_delete:
    "reachable checkEpcInInventory item taskId s \<Longrightarrow>
     reachable checkEpcInInventory item taskId (handleDeleteInvalidScan epcToDelete s)"

text \<open>
  The contract of the registry that the session relies on: a lookup that answers, answers
  about the EPC it was asked about.
\<close>

definition answersAskedEpc :: "Registry \<Rightarrow> string \<Rightarrow> bool" where
  "answersAskedEpc checkEpcInInventory taskId =
     (\<forall>e result. checkEpcInInventory e taskId = Inr result \<longrightarrow> epc result = e)"

subsection \<open>A registry and an item to run the handlers on\<close>

text \<open>
  An item that expects the EPCs \<open>A\<close> and \<open>B\<close>, and a registry in the spirit of the
  comments of lines 121 to 124: the expected EPCs belong to the item, \<open>EPC-E5-001\<close> is
  surplus, \<open>EPC-A1-001\<close> belongs to another asset, anything else is unknown.
\<close>

definition demoItem :: InventoryItem where
  "demoItem =
     \<lparr>item_assetId = ''A2'', item_assetType = ''Laptop'', item_assetName = ''Laptop Dell'',
      quantityRequired = 2, quantityScanned = 0, expectedEpcs = [''A'', ''B'']\<rparr>"

definition demoRegistry :: Registry where
  "demoRegistry e taskId =
     (if e = ''A'' \<or> e = ''B'' then
        Inr \<lparr>epc = e, status = status_valid,
             assetInfo = Some \<lparr>assetId = ''A2'', assetType = ''Laptop'', assetName = ''Laptop Dell''\<rparr>\<rparr>
      else if e = ''EPC-E5-001'' then
        Inr \<lparr>epc = e, status = status_surplus,
             assetInfo = Some \<lparr>assetId = ''E5'', assetType = ''Chair'', assetName = ''Office Chair''\<rparr>\<rparr>
      else if e = ''EPC-A1-001'' then
        Inr \<lparr>epc = e, status = status_valid,
             assetInfo = Some \<lparr>assetId = ''A1'', assetType = ''Monitor'', assetName = ''Monitor LG''\<rparr>\<rparr>
      else Inr \<lparr>epc = e, status = status_error_not_found, assetInfo = None\<rparr>)"

text \<open>The same registry, except that the lookup of \<open>B\<close> fails.\<close>

definition failingRegistry :: Registry where
  "failingRegistry e taskId = (if e = ''B'' then Inl LookupFailure else demoRegistry e taskId)"

text \<open>
  The session of \<open>demoItem\<close> after the batch \<open>[A]\<close> on a fresh screen with
  \<open>demoRegistry\<close>, and the screen then.
\<close>

definition demoScans :: "ScannedEpcUI list" where
  "demoScans =
     [\<lparr>epc = ''A'', status = status_valid,
       assetInfo = Some \<lparr>assetId = ''A2'', assetType = ''Laptop'', assetName = ''Laptop Dell''\<rparr>,
       uiStatus = valid\<rparr>,
      \<lparr>epc = ''B'', status = status_valid,
       assetInfo = Some \<lparr>assetId = ''A2'', assetType = ''Laptop'', assetName = ''Laptop Dell''\<rparr>,
       uiStatus = valid\<rparr>,
      \<lparr>epc = ''EPC-E5-001'', status = status_surplus,
       assetInfo = Some \<lparr>assetId = ''E5'', assetType = ''Chair'', assetName = ''Office Chair''\<rparr>,
       uiStatus = invalid_surplus\<rparr>,
      \<lparr>epc = ''EPC-A1-001'', status = status_valid,
       assetInfo = Some \<lparr>assetId = ''A1'', assetType = ''Monitor'', assetName = ''Monitor LG''\<rparr>,
       uiStatus = invalid_wrong_asset\<rparr>,
      \<lparr>epc = ''UNKNOWN-EPC-123'', status = status_error_not_found, assetInfo = None,
       uiStatus = invalid_not_found\<rparr>]"

definition demoScreen :: Screen where
  "demoScreen =
     \<lparr>activeTab = tab_error, scannedEPCs = demoScans, isProcessing = False,
      swipedInvalidEpc = None\<rparr>"

text \<open>A registry that finds every EPC and names no asset for it.\<close>

definition bareRegistry :: Registry where
  "bareRegistry e taskId = Inr \<lparr>epc = e, status = status_valid, assetInfo = None\<rparr>"

text \<open>
  A registry that knows the tag \<open>A\<close> under the spelling \<open>a\<close> too: asked about \<open>a\<close>,
  it answers with the record of \<open>A\<close>. And the screen after the batch \<open>[a]\<close> on
  \<open>demoScreen\<close> with this registry.
\<close>

definition relabelRegistry :: Registry where
  "relabelRegistry e taskId = (if e = ''a'' then demoRegistry ''A'' taskId else demoRegistry e taskId)"

definition relabelScreen :: Screen where
  "relabelScreen =
     \<lparr>activeTab = tab_error,
      scannedEPCs = demoScans @
        [\<lparr>epc = ''A'', status = status_valid,
          assetInfo = Some \<lparr>assetId = ''A2'', assetType = ''Laptop'', assetName = ''Laptop Dell''\<rparr>,
          uiStatus = valid\<rparr>],
      isProcessing = False, swipedInvalidEpc = None\<rparr>"

section \<open>Properties\<close>

subsection \<open>The insertion-ordered set\<close>

lemma set_setAddAll: "set (setAddAll acc xs) = set acc \<union> set xs"
  by (induction xs arbitrary: acc) auto

lemma distinct_setAddAll: "distinct acc \<Longrightarrow> distinct (setAddAll acc xs)"
  by (induction xs arbitrary: acc) auto

lemma filter_setAddAll: "filter P (setAddAll acc xs) = setAddAll (filter P acc) (filter P xs)"
  by (induction xs arbitrary: acc) auto

lemma set_uniqueEpcs: "set (uniqueEpcs item epcs) = set (mockNewEpcs item epcs)"
  by (simp add: uniqueEpcs_def set_setAddAll)

lemma distinct_uniqueEpcs: "distinct (uniqueEpcs item epcs)"
  by (simp add: uniqueEpcs_def distinct_setAddAll)

subsection \<open>The loop\<close>

text \<open>The loop only appends to \<open>newScans\<close>.\<close>

lemma scanLoop_extends:
  "scanLoop chk item tid es cur new = Inr ns \<Longrightarrow> \<exists>rs. ns = new @ rs"
proof (induction es arbitrary: cur new)
  case Nil
  then show ?case by simp
next
  case (Cons x es)
  show ?case
  proof (cases "x \<in> cur")
    case True
    with Cons show ?thesis by simp
  next
    case False
    with Cons.prems obtain r where "chk x tid = Inr r"
      and rest: "scanLoop chk item tid es (insert x cur)
                   (new @ [scanRecord x r (classify item r)]) = Inr ns"
      by (auto split: sum.splits)
    from Cons.IH [OF rest] show ?thesis by auto
  qed
qed

text \<open>Every EPC of the list that the set does not hold is looked up, and its record kept.\<close>

lemma scanLoop_looked_up:
  "scanLoop chk item tid es cur new = Inr ns \<Longrightarrow> e \<in> set es \<Longrightarrow> e \<notin> cur \<Longrightarrow>
   \<exists>r. chk e tid = Inr r \<and> scanRecord e r (classify item r) \<in> set ns"
proof (induction es arbitrary: cur new)
  case Nil
  then show ?case by simp
next
  case (Cons x es)
  show ?case
  proof (cases "x \<in> cur")
    case True
    with Cons.prems have "e \<in> set es" by auto
    with Cons True show ?thesis by simp
  next
    case False
    with Cons.prems obtain r where r: "chk x tid = Inr r"
      and rest: "scanLoop chk item tid es (insert x cur)
                   (new @ [scanRecord x r (classify item r)]) = Inr ns"
      by (auto split: sum.splits)
    show ?thesis
    proof (cases "e = x")
      case True
      from scanLoop_extends [OF rest] have "scanRecord x r (classify item r) \<in> set ns"
        by auto
      with True r show ?thesis by simp
    next
      case False
      with Cons.prems have "e \<in> set es" "e \<notin> insert x cur" by auto
      from Cons.IH [OF rest this] show ?thesis .
    qed
  qed
qed

text \<open>Every record of the result was there before or is the record of a lookup.\<close>

lemma scanLoop_origin:
  "scanLoop chk item tid es cur new = Inr ns \<Longrightarrow> r \<in> set ns \<Longrightarrow>
   r \<in> set new \<or>
   (\<exists>e result. e \<in> set es \<and> e \<notin> cur \<and> chk e tid = Inr result \<and>
      r = scanRecord e result (classify item result))"
proof (induction es arbitrary: cur new)
  case Nil
  then show ?case by simp
next
  case (Cons x es)
  show ?case
  proof (cases "x \<in> cur")
    case True
    with Cons.prems have "scanLoop chk item tid es cur new = Inr ns" by simp
    from Cons.IH [OF this Cons.prems(2)] show ?thesis by auto
  next
    case False
    with Cons.prems obtain res where res: "chk x tid = Inr res"
      and rest: "scanLoop chk item tid es (insert x cur)
                   (new @ [scanRecord x res (classify item res)]) = Inr ns"
      by (auto split: sum.splits)
    from Cons.IH [OF rest Cons.prems(2)] False res show ?thesis by auto
  qed
qed

lemma scanLoop_all_present:
  "set es \<subseteq> cur \<Longrightarrow> scanLoop chk item tid es cur new = Inr new"
  by (induction es arbitrary: new) auto

lemma scanLoop_skip:
  "e \<in> cur \<Longrightarrow>
   scanLoop chk item tid (filter (\<lambda>x. x \<noteq> e) es) cur new = scanLoop chk item tid es cur new"
  by (induction es arbitrary: cur new) (auto split: sum.splits)

text \<open>
  With a registry that answers about the EPC it was asked about, the new records carry
  the EPCs of the list that the set did not hold, in the order of the list.
\<close>

lemma scanLoop_epcs:
  "answersAskedEpc chk tid \<Longrightarrow> distinct es \<Longrightarrow>
   scanLoop chk item tid es cur new = Inr ns \<Longrightarrow>
   map epc ns = map epc new @ filter (\<lambda>e. e \<notin> cur) es"
proof (induction es arbitrary: cur new)
  case Nil
  then show ?case by simp
next
  case (Cons x es)
  show ?case
  proof (cases "x \<in> cur")
    case True
    with Cons show ?thesis by simp
  next
    case False
    with Cons.prems obtain r where r: "chk x tid = Inr r"
      and rest: "scanLoop chk item tid es (insert x cur)
                   (new @ [scanRecord x r (classify item r)]) = Inr ns"
      by (auto split: sum.splits)
    from Cons.prems(1) r have ex: "epc r = x" by (simp add: answersAskedEpc_def)
    from Cons.prems(2) have d: "distinct es" and nx: "x \<notin> set es" by auto
    from nx have f: "filter (\<lambda>e. e \<notin> insert x cur) es = filter (\<lambda>e. e \<notin> cur) es"
      by (intro filter_cong) auto
    from Cons.IH [OF Cons.prems(1) d rest] ex f False show ?thesis
      by (simp add: scanRecord_def)
  qed
qed

text \<open>A lookup that fails ends the loop with an error.\<close>

lemma scanLoop_fails:
  "e \<in> set es \<Longrightarrow> e \<notin> cur \<Longrightarrow> chk e tid = Inl err \<Longrightarrow>
   \<exists>err'. scanLoop chk item tid es cur new = Inl err'"
proof (cases "scanLoop chk item tid es cur new")
  case (Inl a)
  then show ?thesis by simp
next
  case (Inr ns)
  assume "e \<in> set es" "e \<notin> cur" "chk e tid = Inl err"
  with scanLoop_looked_up [OF Inr, of e] show ?thesis by simp
qed

subsection \<open>The handler\<close>

text \<open>What a call that resolved on a batch with an EPC in it has done.\<close>

lemma handleScanResults_Resolved:
  assumes "handleScanResults chk item tid epcs s = (Resolved, s')" and "epcs \<noteq> []"
  shows "\<exists>ns. newScans chk item tid epcs s = Inr ns \<and>
              scannedEPCs s' = scannedEPCs s @ ns \<and>
              isProcessing s' = False \<and> swipedInvalidEpc s' = swipedInvalidEpc s"
proof (cases "newScans chk item tid epcs s")
  case (Inl err)
  with assms show ?thesis by (simp add: handleScanResults_def)
next
  case (Inr ns)
  with assms have "scannedEPCs s' = scannedEPCs s @ ns \<and> isProcessing s' = False \<and>
      swipedInvalidEpc s' = swipedInvalidEpc s"
    by (auto simp: handleScanResults_def Let_def split: if_splits)
  with Inr show ?thesis by simp
qed

text \<open>Whatever way a call ends, it only adds records at the end of the session.\<close>

lemma handleScanResults_session:
  "\<exists>ns. scannedEPCs (snd (handleScanResults chk item tid epcs s)) = scannedEPCs s @ ns \<and>
        (ns = [] \<or> newScans chk item tid epcs s = Inr ns)"
  by (cases "newScans chk item tid epcs s")
     (auto simp: handleScanResults_def Let_def)

text \<open>What the call does to the session when the loop has ended without a failure.\<close>

lemma handleScanResults_newScans:
  assumes "newScans chk item tid epcs s = Inr ns" and "epcs \<noteq> []"
  shows "fst (handleScanResults chk item tid epcs s) = Resolved \<and>
         scannedEPCs (snd (handleScanResults chk item tid epcs s)) = scannedEPCs s @ ns"
  using assms by (simp add: handleScanResults_def Let_def)

text \<open>The handler of the current render is the captured handler with the session at hand.\<close>

lemma handleScanResults_current_render:
  "handleScanResults chk item tid epcs s =
   capturedHandleScanResults chk item tid (scannedEPCs s) epcs s"
  by (simp add: handleScanResults_def capturedHandleScanResults_def newScans_def)

text \<open>The records of the demonstration.\<close>

lemma demoItem_fields:
  "item_assetId demoItem = ''A2''" "expectedEpcs demoItem = [''A'', ''B'']"
  by (simp_all add: demoItem_def)

lemma uniqueEpcs_demo:
  "uniqueEpcs demoItem [''A''] = [''A'', ''B'', ''EPC-E5-001'', ''EPC-A1-001'', ''UNKNOWN-EPC-123'']"
  by (simp add: uniqueEpcs_def mockNewEpcs_def demoItem_fields)

lemma newScans_demo: "newScans demoRegistry demoItem ''T1'' [''A''] initialScreen = Inr demoScans"
  by (simp add: newScans_def uniqueEpcs_demo initialScreen_def demoRegistry_def classify_def
      scanRecord_def demoItem_fields demoScans_def)

lemma handleScanResults_demo:
  "handleScanResults demoRegistry demoItem ''T1'' [''A''] initialScreen = (Resolved, demoScreen)"
proof -
  have "handleScanResults demoRegistry demoItem ''T1'' [''A''] initialScreen =
      (Resolved, \<lparr>activeTab = tab_error, scannedEPCs = demoScans, isProcessing = False,
                   swipedInvalidEpc = None\<rparr>)"
    apply (simp add: handleScanResults_def newScans_demo Let_def)
    apply (simp add: demoScans_def initialScreen_def)
    done
  then show ?thesis by (simp add: demoScreen_def)
qed

lemma demoRegistry_answersAskedEpc: "answersAskedEpc demoRegistry tid"
  by (auto simp: answersAskedEpc_def demoRegistry_def split: if_splits)

lemma reachable_demoScreen: "reachable demoRegistry demoItem ''T1'' demoScreen"
  using reach_scan [OF reach_initial, of demoRegistry demoItem "''T1''" "[''A'']"]
  by (simp add: handleScanResults_demo)

text \<open>
  The registry that answers \<open>A\<close> for \<open>a\<close>, and the handler that the fresh screen made,
  each called twice.
\<close>

lemma uniqueEpcs_demo_a:
  "uniqueEpcs demoItem [''a''] = [''a'', ''A'', ''B'', ''EPC-E5-001'', ''EPC-A1-001'', ''UNKNOWN-EPC-123'']"
  by (simp add: uniqueEpcs_def mockNewEpcs_def demoItem_fields)

lemma handleScanResults_relabel:
  "handleScanResults relabelRegistry demoItem ''T1'' [''a''] demoScreen = (Resolved, relabelScreen)"
proof -
  have "newScans relabelRegistry demoItem ''T1'' [''a''] demoScreen =
      Inr [\<lparr>epc = ''A'', status = status_valid,
          assetInfo = Some \<lparr>assetId = ''A2'', assetType = ''Laptop'', assetName = ''Laptop Dell''\<rparr>,
          uiStatus = valid\<rparr>]"
    by (simp add: newScans_def uniqueEpcs_demo_a demoScreen_def demoScans_def relabelRegistry_def
        demoRegistry_def classify_def scanRecord_def demoItem_fields)
  then show ?thesis
    by (simp add: handleScanResults_def Let_def) (simp add: demoScreen_def relabelScreen_def)
qed

lemma handleScanResults_relabel_again:
  "map epc (scannedEPCs (snd (handleScanResults relabelRegistry demoItem ''T1'' [''a''] relabelScreen)))
     = [''A'', ''B'', ''EPC-E5-001'', ''EPC-A1-001'', ''UNKNOWN-EPC-123'', ''A'', ''A'']"
proof -
  have "newScans relabelRegistry demoItem ''T1'' [''a''] relabelScreen =
      Inr [\<lparr>epc = ''A'', status = status_valid,
          assetInfo = Some \<lparr>assetId = ''A2'', assetType = ''Laptop'', assetName = ''Laptop Dell''\<rparr>,
          uiStatus = valid\<rparr>]"
    by (simp add: newScans_def uniqueEpcs_demo_a relabelScreen_def demoScans_def relabelRegistry_def
        demoRegistry_def classify_def scanRecord_def demoItem_fields)
  from handleScanResults_newScans [OF this] show ?thesis
    by (simp add: relabelScreen_def demoScans_def)
qed

lemma captured_demo_first:
  "capturedHandleScanResults demoRegistry demoItem ''T1'' (scannedEPCs initialScreen) [''A'']
     initialScreen = (Resolved, demoScreen)"
  using handleScanResults_demo by (simp add: handleScanResults_current_render)

lemma captured_demo_second:
  "map epc (scannedEPCs (snd (capturedHandleScanResults demoRegistry demoItem ''T1''
       (scannedEPCs initialScreen) [''A''] demoScreen)))
     = [''A'', ''B'', ''EPC-E5-001'', ''EPC-A1-001'', ''UNKNOWN-EPC-123'',
        ''A'', ''B'', ''EPC-E5-001'', ''EPC-A1-001'', ''UNKNOWN-EPC-123'']"
proof -
  from newScans_demo have "scanLoop demoRegistry demoItem ''T1'' (uniqueEpcs demoItem [''A''])
      (set (map epc (scannedEPCs initialScreen))) [] = Inr demoScans"
    by (simp add: newScans_def)
  then show ?thesis
    by (simp add: capturedHandleScanResults_def Let_def) (simp add: demoScreen_def demoScans_def)
qed

section \<open>The claims\<close>

subsection \<open>C1: the order of the classification\<close>

text \<open>
  C1. Take a call of the scan handler on a batch that is not empty, and that resolved.
  Every EPC that the handler processes (the EPCs of the batch, and the ones the handler
  adds to it) and that the session did not hold is looked up in the registry, and the
  session then holds the record made of the lookup result. The status of that record
  follows the decision steps in their order, the first that applies: \<open>invalid_not_found\<close>
  when the result says \<open>error_not_found\<close>; otherwise \<open>invalid_surplus\<close> when it says
  \<open>surplus\<close>; otherwise \<open>invalid_wrong_asset\<close> when its asset is missing or is not the
  current asset; otherwise \<open>valid\<close>.
\<close>

theorem classification_order:
  assumes "handleScanResults chk item tid epcs s = (Resolved, s')"
    and "e \<in> set (mockNewEpcs item epcs)"
    and "e \<notin> set (map epc (scannedEPCs s))"
    and "epcs \<noteq> []"
  shows "\<exists>result r. chk e tid = Inr result \<and> r \<in> set (scannedEPCs s') \<and>
           r = scanRecord e result (uiStatus r) \<and>
           uiStatus r =
             (if status result = status_error_not_found then invalid_not_found
              else if status result = status_surplus then invalid_surplus
              else if assetInfo result = None then invalid_wrong_asset
              else if assetId (the (assetInfo result)) \<noteq> item_assetId item
                then invalid_wrong_asset
              else valid)"
proof -
  from handleScanResults_Resolved [OF assms(1,4)] obtain ns
    where ns: "newScans chk item tid epcs s = Inr ns"
      and s': "scannedEPCs s' = scannedEPCs s @ ns" by blast
  from assms(2) have "e \<in> set (uniqueEpcs item epcs)" by (simp add: set_uniqueEpcs)
  with ns assms(3) obtain result where res: "chk e tid = Inr result"
    and mem: "scanRecord e result (classify item result) \<in> set ns"
    unfolding newScans_def using scanLoop_looked_up by blast
  let ?r = "scanRecord e result (classify item result)"
  have ui: "uiStatus ?r = classify item result" by (simp add: scanRecord_def)
  have "uiStatus ?r =
             (if status result = status_error_not_found then invalid_not_found
              else if status result = status_surplus then invalid_surplus
              else if assetInfo result = None then invalid_wrong_asset
              else if assetId (the (assetInfo result)) \<noteq> item_assetId item
                then invalid_wrong_asset
              else valid)"
    unfolding ui by (cases "assetInfo result") (auto simp: classify_def)
  moreover have "?r = scanRecord e result (uiStatus ?r)" by (simp add: ui)
  moreover from mem s' have "?r \<in> set (scannedEPCs s')" by simp
  ultimately show ?thesis using res by blast
qed

text \<open>
  The batch \<open>[A]\<close> on a fresh screen: \<open>EPC-A1-001\<close> is looked up, the registry says it
  is valid for another asset, and its record is \<open>invalid_wrong_asset\<close>.
\<close>

theorem classification_order_witness:
  "handleScanResults demoRegistry demoItem ''T1'' [''A''] initialScreen = (Resolved, demoScreen) \<and>
   ''EPC-A1-001'' \<in> set (mockNewEpcs demoItem [''A'']) \<and>
   ''EPC-A1-001'' \<notin> set (map epc (scannedEPCs initialScreen)) \<and>
   (\<exists>result r. demoRegistry ''EPC-A1-001'' ''T1'' = Inr result \<and>
       r \<in> set (scannedEPCs demoScreen) \<and>
       r = scanRecord ''EPC-A1-001'' result (uiStatus r) \<and> uiStatus r = invalid_wrong_asset)"
proof -
  have h1: "handleScanResults demoRegistry demoItem ''T1'' [''A''] initialScreen
              = (Resolved, demoScreen)"
    by (rule handleScanResults_demo)
  have h2: "''EPC-A1-001'' \<in> set (mockNewEpcs demoItem [''A''])"
    by (simp add: mockNewEpcs_def)
  have h3: "''EPC-A1-001'' \<notin> set (map epc (scannedEPCs initialScreen))"
    by (simp add: initialScreen_def)
  have h4: "[''A''] \<noteq> []" by simp
  from classification_order [OF h1 h2 h3 h4] obtain result r where
    a: "demoRegistry ''EPC-A1-001'' ''T1'' = Inr result"
    and b: "r \<in> set (scannedEPCs demoScreen)"
    and c: "r = scanRecord ''EPC-A1-001'' result (uiStatus r)"
    and d: "uiStatus r =
             (if status result = status_error_not_found then invalid_not_found
              else if status result = status_surplus then invalid_surplus
              else if assetInfo result = None then invalid_wrong_asset
              else if assetId (the (assetInfo result)) \<noteq> item_assetId demoItem
                then invalid_wrong_asset
              else valid)" by blast
  from a have "result = \<lparr>epc = ''EPC-A1-001'', status = status_valid,
      assetInfo = Some \<lparr>assetId = ''A1'', assetType = ''Monitor'', assetName = ''Monitor LG''\<rparr>\<rparr>"
    by (simp add: demoRegistry_def)
  with d have "uiStatus r = invalid_wrong_asset" by (simp add: demoItem_fields)
  with a b c h1 h2 h3 show ?thesis by blast
qed

subsection \<open>Invariants of the sessions the screen can reach\<close>

text \<open>A batch gives no record the status \<open>invalid_duplicate\<close>.\<close>

lemma newScans_status:
  assumes "newScans chk item tid epcs s = Inr ns" and "r \<in> set ns"
  shows "uiStatus r \<in> {valid, invalid_surplus, invalid_wrong_asset, invalid_not_found}"
proof -
  from assms obtain e result where "r = scanRecord e result (classify item result)"
    unfolding newScans_def using scanLoop_origin by fastforce
  then show ?thesis by (simp add: scanRecord_def classify_def)
qed

lemma reachable_status:
  "reachable chk item tid s \<Longrightarrow> r \<in> set (scannedEPCs s) \<Longrightarrow>
   uiStatus r \<in> {valid, invalid_surplus, invalid_wrong_asset, invalid_not_found}"
proof (induction arbitrary: r rule: reachable.induct)
  case reach_initial
  then show ?case by (simp add: initialScreen_def)
next
  case (reach_scan s epcs)
  from handleScanResults_session [of chk item tid epcs s] obtain ns where
    eq: "scannedEPCs (snd (handleScanResults chk item tid epcs s)) = scannedEPCs s @ ns"
    and ns: "ns = [] \<or> newScans chk item tid epcs s = Inr ns" by blast
  from reach_scan.prems eq have "r \<in> set (scannedEPCs s) \<or> r \<in> set ns" by simp
  then show ?case
  proof
    assume "r \<in> set (scannedEPCs s)"
    then show ?thesis by (rule reach_scan.IH)
  next
    assume r: "r \<in> set ns"
    with ns have "newScans chk item tid epcs s = Inr ns" by auto
    from newScans_status [OF this r] show ?thesis .
  qed
next
  case (reach_delete s epcToDelete)
  from reach_delete.prems have "r \<in> set (scannedEPCs s)"
    by (simp add: handleDeleteInvalidScan_def)
  then show ?case by (rule reach_delete.IH)
qed

subsection \<open>C9: no stored record is a duplicate record\<close>

text \<open>
  C9. In every session that the screen can reach from the fresh one by scan batches and
  deletions, no record has the status \<open>invalid_duplicate\<close>: the status of every record is
  \<open>valid\<close>, \<open>invalid_surplus\<close>, \<open>invalid_wrong_asset\<close> or \<open>invalid_not_found\<close>. The loop
  makes no record for an EPC that the session holds: it goes on to the next EPC.
\<close>

theorem no_duplicate_status_stored:
  assumes "reachable chk item tid s" and "r \<in> set (scannedEPCs s)"
  shows "uiStatus r \<noteq> invalid_duplicate \<and>
         uiStatus r \<in> {valid, invalid_surplus, invalid_wrong_asset, invalid_not_found} \<and>
         scanLoop chk item tid (epc r # es) (set (map epc (scannedEPCs s))) new
           = scanLoop chk item tid es (set (map epc (scannedEPCs s))) new"
proof -
  from reachable_status [OF assms]
  have "uiStatus r \<in> {valid, invalid_surplus, invalid_wrong_asset, invalid_not_found}" .
  moreover from this have "uiStatus r \<noteq> invalid_duplicate" by auto
  moreover from assms(2) have "epc r \<in> set (map epc (scannedEPCs s))" by simp
  ultimately show ?thesis by simp
qed

text \<open>The screen after the batch \<open>[A]\<close>, and its record of \<open>EPC-E5-001\<close>.\<close>

theorem no_duplicate_status_stored_witness:
  "reachable demoRegistry demoItem ''T1'' demoScreen \<and>
   demoScans ! 2 \<in> set (scannedEPCs demoScreen) \<and>
   uiStatus (demoScans ! 2) \<noteq> invalid_duplicate"
proof -
  have m: "demoScans ! 2 \<in> set (scannedEPCs demoScreen)"
    by (simp add: demoScreen_def demoScans_def)
  from no_duplicate_status_stored [OF reachable_demoScreen m] reachable_demoScreen m
  show ?thesis by blast
qed

subsection \<open>C5: the three buckets partition the session\<close>

text \<open>
  C5. In every session that the screen can reach from the fresh one by scan batches and
  deletions, the valid bucket, the surplus bucket (\<open>invalid_surplus\<close> and
  \<open>invalid_wrong_asset\<close>) and the error bucket (\<open>invalid_not_found\<close>) have no record in
  common, and their sizes add up to the number of records of the session.
\<close>

theorem buckets_partition_session:
  assumes "reachable chk item tid s"
  shows "length (validScans s) + length (surplusScans s) + length (errorScans s)
           = length (scannedEPCs s) \<and>
         set (validScans s) \<inter> set (surplusScans s) = {} \<and>
         set (validScans s) \<inter> set (errorScans s) = {} \<and>
         set (surplusScans s) \<inter> set (errorScans s) = {}"
proof -
  have all: "\<forall>r \<in> set (scannedEPCs s).
      uiStatus r \<in> {valid, invalid_surplus, invalid_wrong_asset, invalid_not_found}"
    using reachable_status [OF assms] by blast
  have count: "\<forall>r \<in> set rs.
        uiStatus r \<in> {valid, invalid_surplus, invalid_wrong_asset, invalid_not_found} \<Longrightarrow>
      length (filter (\<lambda>r. uiStatus r = valid) rs)
        + length (filter (\<lambda>r. uiStatus r = invalid_surplus \<or> uiStatus r = invalid_wrong_asset) rs)
        + length (filter (\<lambda>r. uiStatus r = invalid_not_found) rs) = length rs" for rs :: "ScannedEpcUI list"
    by (induction rs) auto
  from count [OF all] have "length (validScans s) + length (surplusScans s) + length (errorScans s)
           = length (scannedEPCs s)"
    by (simp add: validScans_def surplusScans_def errorScans_def)
  moreover have "set (validScans s) \<inter> set (surplusScans s) = {}"
    by (auto simp: validScans_def surplusScans_def)
  moreover have "set (validScans s) \<inter> set (errorScans s) = {}"
    by (auto simp: validScans_def errorScans_def)
  moreover have "set (surplusScans s) \<inter> set (errorScans s) = {}"
    by (auto simp: surplusScans_def errorScans_def)
  ultimately show ?thesis by blast
qed

text \<open>The screen after the batch \<open>[A]\<close>: two valid records, two surplus ones, one error.\<close>

theorem buckets_partition_session_witness:
  "reachable demoRegistry demoItem ''T1'' demoScreen \<and>
   length (validScans demoScreen) = 2 \<and> length (surplusScans demoScreen) = 2 \<and>
   length (errorScans demoScreen) = 1 \<and>
   length (validScans demoScreen) + length (surplusScans demoScreen)
     + length (errorScans demoScreen) = length (scannedEPCs demoScreen) \<and>
   set (validScans demoScreen) \<inter> set (surplusScans demoScreen) = {}"
proof -
  have "length (validScans demoScreen) = 2"
    by (simp add: validScans_def demoScreen_def demoScans_def)
  moreover have "length (surplusScans demoScreen) = 2"
    by (simp add: surplusScans_def demoScreen_def demoScans_def)
  moreover have "length (errorScans demoScreen) = 1"
    by (simp add: errorScans_def demoScreen_def demoScans_def)
  ultimately show ?thesis
    using buckets_partition_session [OF reachable_demoScreen] reachable_demoScreen by blast
qed

subsection \<open>C10: a result that is found and carries no asset\<close>

text \<open>
  C10. Take a call of the scan handler on a batch that is not empty, and that resolved.
  When the registry answers \<open>valid\<close> with no \<open>assetInfo\<close> for an EPC that the handler
  processes and the session did not hold, the record that the session gets for it is
  \<open>invalid_wrong_asset\<close>. And every record that the call adds with the status \<open>valid\<close>
  carries an \<open>assetInfo\<close> whose \<open>assetId\<close> is the one of the current asset, with a
  lookup status that is neither \<open>error_not_found\<close> nor \<open>surplus\<close>.
\<close>

theorem found_without_assetInfo:
  assumes "handleScanResults chk item tid epcs s = (Resolved, s')" and "epcs \<noteq> []"
  shows "(\<forall>e result. e \<in> set (mockNewEpcs item epcs) \<and> e \<notin> set (map epc (scannedEPCs s)) \<and>
            chk e tid = Inr result \<and> status result = status_valid \<and> assetInfo result = None
            \<longrightarrow> scanRecord e result invalid_wrong_asset \<in> set (scannedEPCs s')) \<and>
         (\<exists>ns. scannedEPCs s' = scannedEPCs s @ ns \<and>
            (\<forall>r \<in> set ns. uiStatus r = valid \<longrightarrow>
               status r = status_valid \<and>
               (\<exists>a. assetInfo r = Some a \<and> assetId a = item_assetId item)))"
proof -
  from handleScanResults_Resolved [OF assms] obtain ns
    where ns: "newScans chk item tid epcs s = Inr ns"
      and s': "scannedEPCs s' = scannedEPCs s @ ns" by blast
  have first: "scanRecord e result invalid_wrong_asset \<in> set (scannedEPCs s')"
    if "e \<in> set (mockNewEpcs item epcs)" "e \<notin> set (map epc (scannedEPCs s))"
      "chk e tid = Inr result" "status result = status_valid" "assetInfo result = None"
    for e result
  proof -
    from that(1) have "e \<in> set (uniqueEpcs item epcs)" by (simp add: set_uniqueEpcs)
    with ns that(2) obtain result' where "chk e tid = Inr result'"
      and "scanRecord e result' (classify item result') \<in> set ns"
      unfolding newScans_def using scanLoop_looked_up by blast
    with that(3) have "scanRecord e result (classify item result) \<in> set ns" by simp
    moreover from that(4,5) have "classify item result = invalid_wrong_asset"
      by (simp add: classify_def)
    ultimately show ?thesis using s' by simp
  qed
  have second: "status r = status_valid \<and> (\<exists>a. assetInfo r = Some a \<and> assetId a = item_assetId item)"
    if "r \<in> set ns" "uiStatus r = valid" for r
  proof -
    from ns that(1) obtain e result where r: "r = scanRecord e result (classify item result)"
      unfolding newScans_def using scanLoop_origin by fastforce
    with that(2) have "classify item result = valid" by (simp add: scanRecord_def)
    then have "status result = status_valid \<and>
        (\<exists>a. assetInfo result = Some a \<and> assetId a = item_assetId item)"
      by (cases "status result"; cases "assetInfo result")
         (auto simp: classify_def split: if_splits)
    with r show ?thesis by (simp add: scanRecord_def)
  qed
  from first second s' show ?thesis by blast
qed

text \<open>
  With \<open>bareRegistry\<close> the batch \<open>[A]\<close> on a fresh screen resolves, and the record of
  \<open>A\<close> is \<open>invalid_wrong_asset\<close>.
\<close>

theorem found_without_assetInfo_witness:
  "fst (handleScanResults bareRegistry demoItem ''T1'' [''A''] initialScreen) = Resolved \<and>
   [''A''] \<noteq> [] \<and>
   scanRecord ''A'' \<lparr>epc = ''A'', status = status_valid, assetInfo = None\<rparr> invalid_wrong_asset
     \<in> set (scannedEPCs (snd (handleScanResults bareRegistry demoItem ''T1'' [''A''] initialScreen)))"
proof -
  let ?h = "handleScanResults bareRegistry demoItem ''T1'' [''A''] initialScreen"
  have "\<exists>ns. newScans bareRegistry demoItem ''T1'' [''A''] initialScreen = Inr ns"
    by (simp add: newScans_def uniqueEpcs_demo initialScreen_def bareRegistry_def)
  then have r: "fst ?h = Resolved"
    by (auto simp: handleScanResults_def Let_def)
  then have h: "?h = (Resolved, snd ?h)" by (simp add: prod_eq_iff)
  have ne: "[''A''] \<noteq> []" by simp
  have a: "''A'' \<in> set (mockNewEpcs demoItem [''A'']) \<and>
      ''A'' \<notin> set (map epc (scannedEPCs initialScreen)) \<and>
      bareRegistry ''A'' ''T1'' = Inr \<lparr>epc = ''A'', status = status_valid, assetInfo = None\<rparr> \<and>
      status \<lparr>epc = ''A'', status = status_valid, assetInfo = None\<rparr> = status_valid \<and>
      assetInfo \<lparr>epc = ''A'', status = status_valid, assetInfo = None\<rparr> = None"
    by (simp add: mockNewEpcs_def initialScreen_def bareRegistry_def)
  from found_without_assetInfo [OF h ne] a r ne show ?thesis by blast
qed

subsection \<open>C4: no two records of the session have the same EPC\<close>

text \<open>
  C4, as the claim states it, fails. The registry answers \<open>A\<close> for \<open>a\<close>; the session
  of \<open>demoScreen\<close>, which the batch \<open>[A]\<close> gave on a fresh screen, holds no EPC twice;
  after the batch \<open>[a]\<close> it holds \<open>A\<close> twice: the loop tests the scanned \<open>a\<close>
  against the EPCs of the session and stores the \<open>A\<close> of the lookup result. And the
  handler that the fresh screen made, called on \<open>demoScreen\<close> with the batch \<open>[A]\<close>
  again, stores every EPC a second time.
\<close>

theorem duplicate_epc_counterexample:
  "handleScanResults relabelRegistry demoItem ''T1'' [''A''] initialScreen = (Resolved, demoScreen) \<and>
   distinct (map epc (scannedEPCs demoScreen)) \<and>
   handleScanResults relabelRegistry demoItem ''T1'' [''a''] demoScreen = (Resolved, relabelScreen) \<and>
   map epc (scannedEPCs relabelScreen)
     = [''A'', ''B'', ''EPC-E5-001'', ''EPC-A1-001'', ''UNKNOWN-EPC-123'', ''A''] \<and>
   \<not> distinct (map epc (scannedEPCs relabelScreen)) \<and>
   \<not> distinct (map epc (scannedEPCs (snd (capturedHandleScanResults demoRegistry demoItem ''T1''
       (scannedEPCs initialScreen) [''A''] demoScreen))))"
proof -
  have "newScans relabelRegistry demoItem ''T1'' [''A''] initialScreen = Inr demoScans"
    by (simp add: newScans_def uniqueEpcs_demo initialScreen_def relabelRegistry_def
        demoRegistry_def classify_def scanRecord_def demoItem_fields demoScans_def)
  then have a: "handleScanResults relabelRegistry demoItem ''T1'' [''A''] initialScreen
      = (Resolved, demoScreen)"
    by (simp add: handleScanResults_def Let_def)
       (simp add: demoScans_def initialScreen_def demoScreen_def)
  have b: "distinct (map epc (scannedEPCs demoScreen))"
    by (simp add: demoScreen_def demoScans_def)
  have c: "map epc (scannedEPCs relabelScreen)
     = [''A'', ''B'', ''EPC-E5-001'', ''EPC-A1-001'', ''UNKNOWN-EPC-123'', ''A'']"
    by (simp add: relabelScreen_def demoScans_def)
  then have d: "\<not> distinct (map epc (scannedEPCs relabelScreen))" by simp
  have e: "\<not> distinct (map epc (scannedEPCs (snd (capturedHandleScanResults demoRegistry demoItem
      ''T1'' (scannedEPCs initialScreen) [''A''] demoScreen))))"
    by (simp add: captured_demo_second)
  from a b c d e handleScanResults_relabel show ?thesis by blast
qed

text \<open>
  C4, amended. With a registry that answers about the EPC it was asked about, and scan
  batches that go to the handler of the current render: a session in which no two records
  have the same EPC stays so under a scan batch, however the call ends, and under a
  deletion; the session of a fresh screen is such a session. The EPCs of a batch that
  occur twice in it, and the ones that the session holds, give no record.
\<close>

theorem distinct_epcs_preserved:
  assumes "answersAskedEpc chk tid" and "distinct (map epc (scannedEPCs s))"
  shows "distinct (map epc (scannedEPCs (snd (handleScanResults chk item tid epcs s)))) \<and>
         distinct (map epc (scannedEPCs (handleDeleteInvalidScan epcToDelete s))) \<and>
         distinct (map epc (scannedEPCs initialScreen))"
proof -
  from handleScanResults_session [of chk item tid epcs s] obtain ns where
    eq: "scannedEPCs (snd (handleScanResults chk item tid epcs s)) = scannedEPCs s @ ns"
    and ns: "ns = [] \<or> newScans chk item tid epcs s = Inr ns" by blast
  have "distinct (map epc (scannedEPCs s @ ns))"
  proof (cases "ns = []")
    case True
    with assms(2) show ?thesis by simp
  next
    case False
    with ns have "newScans chk item tid epcs s = Inr ns" by simp
    with assms(1) have "map epc ns =
        filter (\<lambda>e. e \<notin> set (map epc (scannedEPCs s))) (uniqueEpcs item epcs)"
      unfolding newScans_def using scanLoop_epcs [OF _ distinct_uniqueEpcs] by fastforce
    with assms(2) show ?thesis by (auto simp: distinct_uniqueEpcs)
  qed
  with eq have "distinct (map epc (scannedEPCs (snd (handleScanResults chk item tid epcs s))))"
    by simp
  moreover from assms(2)
  have "distinct (map epc (scannedEPCs (handleDeleteInvalidScan epcToDelete s)))"
    by (simp add: handleDeleteInvalidScan_def distinct_map_filter)
  moreover have "distinct (map epc (scannedEPCs initialScreen))"
    by (simp add: initialScreen_def)
  ultimately show ?thesis by blast
qed

text \<open>
  The batch \<open>[C, C, A]\<close> on the screen that holds \<open>A\<close> already adds one record, for
  \<open>C\<close>; and the deletion of \<open>A\<close>.
\<close>

theorem distinct_epcs_preserved_witness:
  "answersAskedEpc demoRegistry ''T1'' \<and> distinct (map epc (scannedEPCs demoScreen)) \<and>
   map epc (scannedEPCs
     (snd (handleScanResults demoRegistry demoItem ''T1'' [''C'', ''C'', ''A''] demoScreen)))
     = [''A'', ''B'', ''EPC-E5-001'', ''EPC-A1-001'', ''UNKNOWN-EPC-123'', ''C''] \<and>
   distinct (map epc (scannedEPCs
     (snd (handleScanResults demoRegistry demoItem ''T1'' [''C'', ''C'', ''A''] demoScreen)))) \<and>
   distinct (map epc (scannedEPCs (handleDeleteInvalidScan ''A'' demoScreen)))"
proof -
  have d: "distinct (map epc (scannedEPCs demoScreen))"
    by (simp add: demoScreen_def demoScans_def)
  have u: "uniqueEpcs demoItem [''C'', ''C'', ''A'']
      = [''C'', ''A'', ''B'', ''EPC-E5-001'', ''EPC-A1-001'', ''UNKNOWN-EPC-123'']"
    by (simp add: uniqueEpcs_def mockNewEpcs_def demoItem_fields)
  have "newScans demoRegistry demoItem ''T1'' [''C'', ''C'', ''A''] demoScreen =
      Inr [scanRecord ''C'' \<lparr>epc = ''C'', status = status_error_not_found, assetInfo = None\<rparr>
             invalid_not_found]"
    by (simp add: newScans_def u demoScreen_def demoScans_def demoRegistry_def classify_def)
  from handleScanResults_newScans [OF this]
  have "map epc (scannedEPCs
     (snd (handleScanResults demoRegistry demoItem ''T1'' [''C'', ''C'', ''A''] demoScreen)))
     = [''A'', ''B'', ''EPC-E5-001'', ''EPC-A1-001'', ''UNKNOWN-EPC-123'', ''C'']"
    by (simp add: demoScreen_def demoScans_def scanRecord_def)
  with distinct_epcs_preserved [OF demoRegistry_answersAskedEpc d] demoRegistry_answersAskedEpc d
  show ?thesis by blast
qed

subsection \<open>C8: the same batch twice\<close>

text \<open>
  C8, as the claim states it, fails. The registry answers \<open>A\<close> for \<open>a\<close> and is the
  same at both calls; the batch \<open>[a]\<close> on \<open>demoScreen\<close> resolves and leaves six
  records; the batch \<open>[a]\<close> again resolves and leaves seven, since the session holds
  \<open>A\<close> and not \<open>a\<close>. And the handler that the fresh screen made, called twice with
  the batch \<open>[A]\<close>, adds its five records at each call.
\<close>

theorem same_batch_twice_counterexample:
  "handleScanResults relabelRegistry demoItem ''T1'' [''a''] demoScreen = (Resolved, relabelScreen) \<and>
   length (scannedEPCs relabelScreen) = 6 \<and>
   fst (handleScanResults relabelRegistry demoItem ''T1'' [''a''] relabelScreen) = Resolved \<and>
   length (scannedEPCs (snd (handleScanResults relabelRegistry demoItem ''T1'' [''a'']
     relabelScreen))) = 7 \<and>
   capturedHandleScanResults demoRegistry demoItem ''T1'' (scannedEPCs initialScreen) [''A'']
     initialScreen = (Resolved, demoScreen) \<and>
   length (scannedEPCs demoScreen) = 5 \<and>
   length (scannedEPCs (snd (capturedHandleScanResults demoRegistry demoItem ''T1''
     (scannedEPCs initialScreen) [''A''] demoScreen))) = 10"
proof -
  have a: "length (scannedEPCs relabelScreen) = 6"
    by (simp add: relabelScreen_def demoScans_def)
  have "\<exists>ns. newScans relabelRegistry demoItem ''T1'' [''a''] relabelScreen = Inr ns"
    by (simp add: newScans_def uniqueEpcs_demo_a relabelScreen_def demoScans_def relabelRegistry_def
        demoRegistry_def)
  then have b: "fst (handleScanResults relabelRegistry demoItem ''T1'' [''a''] relabelScreen)
      = Resolved"
    by (auto simp: handleScanResults_def Let_def)
  have "length (map epc (scannedEPCs (snd (handleScanResults relabelRegistry demoItem ''T1''
      [''a''] relabelScreen)))) = 7"
    unfolding handleScanResults_relabel_again by simp
  then have c: "length (scannedEPCs (snd (handleScanResults relabelRegistry demoItem ''T1''
      [''a''] relabelScreen))) = 7" by simp
  have d: "length (scannedEPCs demoScreen) = 5" by (simp add: demoScreen_def demoScans_def)
  have "length (map epc (scannedEPCs (snd (capturedHandleScanResults demoRegistry demoItem ''T1''
     (scannedEPCs initialScreen) [''A''] demoScreen)))) = 10"
    unfolding captured_demo_second by simp
  then have e: "length (scannedEPCs (snd (capturedHandleScanResults demoRegistry demoItem ''T1''
     (scannedEPCs initialScreen) [''A''] demoScreen))) = 10" by simp
  from a b c d e handleScanResults_relabel captured_demo_first show ?thesis by blast
qed

text \<open>
  C8, amended. With a registry that answers about the EPC it was asked about and that is
  the same at both calls, and each call made to the handler of the current render: when a
  scan batch has resolved, the same batch again resolves too, adds no record and leaves
  the screen as the first call left it. The first call has added the records of its loop
  to the session; at the second call the session holds every EPC that the handler
  processes.
\<close>

theorem same_batch_twice:
  assumes "answersAskedEpc chk tid"
    and "handleScanResults chk item tid b s = (Resolved, s')"
  shows "handleScanResults chk item tid b s' = (Resolved, s') \<and>
         (b = [] \<and> s' = s \<or>
          b \<noteq> [] \<and> (\<exists>added. newScans chk item tid b s = Inr added \<and>
                     scannedEPCs s' = scannedEPCs s @ added) \<and>
          set (uniqueEpcs item b) \<subseteq> set (map epc (scannedEPCs s')) \<and>
          newScans chk item tid b s' = Inr [])"
proof (cases "b = []")
  case True
  with assms(2) show ?thesis by (simp add: handleScanResults_def)
next
  case False
  from handleScanResults_Resolved [OF assms(2) False] obtain added
    where added: "newScans chk item tid b s = Inr added"
      and s': "scannedEPCs s' = scannedEPCs s @ added"
      and proc: "isProcessing s' = False" by blast
  from added assms(1) have "map epc added =
      filter (\<lambda>e. e \<notin> set (map epc (scannedEPCs s))) (uniqueEpcs item b)"
    unfolding newScans_def using scanLoop_epcs [OF _ distinct_uniqueEpcs] by fastforce
  with s' have sub: "set (uniqueEpcs item b) \<subseteq> set (map epc (scannedEPCs s'))"
    by auto
  then have none: "newScans chk item tid b s' = Inr []"
    unfolding newScans_def by (rule scanLoop_all_present)
  with False proc have "handleScanResults chk item tid b s' = (Resolved, s')"
    by (simp add: handleScanResults_def)
  with False added s' sub none show ?thesis by blast
qed

text \<open>The batch \<open>[A]\<close> on a fresh screen, and again.\<close>

theorem same_batch_twice_witness:
  "answersAskedEpc demoRegistry ''T1'' \<and>
   handleScanResults demoRegistry demoItem ''T1'' [''A''] initialScreen = (Resolved, demoScreen) \<and>
   handleScanResults demoRegistry demoItem ''T1'' [''A''] demoScreen = (Resolved, demoScreen) \<and>
   newScans demoRegistry demoItem ''T1'' [''A''] initialScreen = Inr demoScans \<and>
   newScans demoRegistry demoItem ''T1'' [''A''] demoScreen = Inr []"
proof -
  have ne: "[''A''] \<noteq> ([] :: string list)" by simp
  from same_batch_twice [OF demoRegistry_answersAskedEpc handleScanResults_demo] ne
  have "handleScanResults demoRegistry demoItem ''T1'' [''A''] demoScreen = (Resolved, demoScreen)"
    and "newScans demoRegistry demoItem ''T1'' [''A''] demoScreen = Inr []"
    by blast+
  with demoRegistry_answersAskedEpc handleScanResults_demo newScans_demo show ?thesis by blast
qed

subsection \<open>C2: scanning an EPC that the session holds\<close>

text \<open>The batch \<open>[A]\<close> again, on the screen that holds \<open>A\<close>.\<close>

lemma newScans_demo_again: "newScans demoRegistry demoItem ''T1'' [''A''] demoScreen = Inr []"
  by (simp add: newScans_def uniqueEpcs_demo demoScreen_def demoScans_def)

lemma handleScanResults_demo_again:
  "handleScanResults demoRegistry demoItem ''T1'' [''A''] demoScreen = (Resolved, demoScreen)"
  by (simp add: handleScanResults_def newScans_demo_again) (simp add: demoScreen_def)

text \<open>
  C2, as the claim states it, fails: the session holds \<open>A\<close>, the batch \<open>[A]\<close> comes
  again, and nothing gets the status \<open>invalid_duplicate\<close>. The call adds no record, and
  the statuses of the session are the ones it had.
\<close>

theorem rescan_counterexample:
  "''A'' \<in> set (map epc (scannedEPCs demoScreen)) \<and>
   newScans demoRegistry demoItem ''T1'' [''A''] demoScreen = Inr [] \<and>
   map uiStatus (scannedEPCs (snd (handleScanResults demoRegistry demoItem ''T1'' [''A''] demoScreen)))
     = [valid, valid, invalid_surplus, invalid_wrong_asset, invalid_not_found] \<and>
   invalid_duplicate \<notin> set (map uiStatus
     (scannedEPCs (snd (handleScanResults demoRegistry demoItem ''T1'' [''A''] demoScreen))))"
  by (simp add: handleScanResults_demo_again newScans_demo_again) (simp add: demoScreen_def demoScans_def)

text \<open>
  C2, amended. For every EPC \<open>e\<close> that the session holds, a scan batch handled by the
  handler of the current render gives \<open>e\<close> no record and no status. A batch that has
  another EPC than \<open>e\<close> in it does what the same batch does with \<open>e\<close> taken out of
  it. And whatever the batch, the call only adds records at the end of the session, each
  of them the record of the lookup of an EPC other than \<open>e\<close> that the handler
  processes and that the session did not hold, and none of them with the status
  \<open>invalid_duplicate\<close>.
\<close>

theorem rescan_gives_no_record:
  assumes "e \<in> set (map epc (scannedEPCs s))"
  shows "(removeAll e epcs \<noteq> [] \<longrightarrow>
            handleScanResults chk item tid epcs s
              = handleScanResults chk item tid (removeAll e epcs) s) \<and>
         (\<exists>ns. scannedEPCs (snd (handleScanResults chk item tid epcs s)) = scannedEPCs s @ ns \<and>
            (\<forall>r \<in> set ns. uiStatus r \<noteq> invalid_duplicate \<and>
               (\<exists>e' result. e' \<noteq> e \<and> e' \<in> set (mockNewEpcs item epcs) \<and>
                  e' \<notin> set (map epc (scannedEPCs s)) \<and> chk e' tid = Inr result \<and>
                  r = scanRecord e' result (classify item result))))"
proof -
  let ?cur = "set (map epc (scannedEPCs s))"
  have skip: "scanLoop chk item tid (uniqueEpcs item xs) ?cur [] =
      scanLoop chk item tid (setAddAll [] (filter (\<lambda>x. x \<noteq> e) (mockNewEpcs item xs))) ?cur []"
    for xs
    using scanLoop_skip [OF assms, of chk item tid "uniqueEpcs item xs" "[]"]
    by (simp add: uniqueEpcs_def filter_setAddAll)
  have "filter (\<lambda>x. x \<noteq> e) (mockNewEpcs item (removeAll e epcs)) =
      filter (\<lambda>x. x \<noteq> e) (mockNewEpcs item epcs)"
    by (simp add: mockNewEpcs_def removeAll_filter_not_eq) (metis (mono_tags, lifting) filter_cong)
  with skip [of epcs] skip [of "removeAll e epcs"]
  have same: "newScans chk item tid epcs s = newScans chk item tid (removeAll e epcs) s"
    by (simp add: newScans_def)
  have first: "handleScanResults chk item tid epcs s
      = handleScanResults chk item tid (removeAll e epcs) s" if "removeAll e epcs \<noteq> []"
  proof -
    from that have "epcs \<noteq> []" by auto
    with that same show ?thesis by (simp add: handleScanResults_def)
  qed
  from handleScanResults_session [of chk item tid epcs s] obtain ns where
    eq: "scannedEPCs (snd (handleScanResults chk item tid epcs s)) = scannedEPCs s @ ns"
    and ns: "ns = [] \<or> newScans chk item tid epcs s = Inr ns" by blast
  have second: "uiStatus r \<noteq> invalid_duplicate \<and>
      (\<exists>e' result. e' \<noteq> e \<and> e' \<in> set (mockNewEpcs item epcs) \<and>
         e' \<notin> set (map epc (scannedEPCs s)) \<and> chk e' tid = Inr result \<and>
         r = scanRecord e' result (classify item result))" if r: "r \<in> set ns" for r
  proof -
    from r ns have new: "newScans chk item tid epcs s = Inr ns" by auto
    from newScans_status [OF new r] have "uiStatus r \<noteq> invalid_duplicate" by auto
    moreover from new r obtain e' result where "e' \<in> set (uniqueEpcs item epcs)"
      and "e' \<notin> ?cur" and "chk e' tid = Inr result"
      and "r = scanRecord e' result (classify item result)"
      unfolding newScans_def using scanLoop_origin by fastforce
    moreover from this(2) assms have "e' \<noteq> e" by auto
    ultimately show ?thesis by (auto simp: set_uniqueEpcs)
  qed
  from first eq second show ?thesis by blast
qed

text \<open>The batch \<open>[A, C]\<close> on the screen that holds \<open>A\<close> does what the batch \<open>[C]\<close> does.\<close>

theorem rescan_gives_no_record_witness:
  "''A'' \<in> set (map epc (scannedEPCs demoScreen)) \<and> removeAll ''A'' [''A'', ''C''] \<noteq> [] \<and>
   handleScanResults demoRegistry demoItem ''T1'' [''A'', ''C''] demoScreen
     = handleScanResults demoRegistry demoItem ''T1'' [''C''] demoScreen"
proof -
  have m: "''A'' \<in> set (map epc (scannedEPCs demoScreen))"
    by (simp add: demoScreen_def demoScans_def)
  have n: "removeAll ''A'' [''A'', ''C''] \<noteq> []" by simp
  from rescan_gives_no_record [OF m, of "[''A'', ''C'']" demoRegistry demoItem "''T1''"] n
  have "handleScanResults demoRegistry demoItem ''T1'' [''A'', ''C''] demoScreen
     = handleScanResults demoRegistry demoItem ''T1'' (removeAll ''A'' [''A'', ''C'']) demoScreen"
    by blast
  with m n show ?thesis by simp
qed

subsection \<open>C3: the batch \<open>[A]\<close> on a fresh screen\<close>

text \<open>
  C3, as the claim states it, fails: the item expects \<open>A\<close> and \<open>B\<close>, the screen is
  fresh, the batch is \<open>[A]\<close>, and the session gets five records, two of them valid. The
  count that goes to \<open>onConfirmScan\<close> is 2.
\<close>

theorem scenario_one_counterexample:
  "expectedEpcs demoItem = [''A'', ''B''] \<and>
   handleScanResults demoRegistry demoItem ''T1'' [''A''] initialScreen = (Resolved, demoScreen) \<and>
   map epc (scannedEPCs demoScreen)
     = [''A'', ''B'', ''EPC-E5-001'', ''EPC-A1-001'', ''UNKNOWN-EPC-123''] \<and>
   map uiStatus (scannedEPCs demoScreen)
     = [valid, valid, invalid_surplus, invalid_wrong_asset, invalid_not_found] \<and>
   onConfirmArgs ''T1'' demoItem demoScreen = (''T1'', ''A2'', 2)"
  by (simp add: handleScanResults_demo demoItem_fields onConfirmArgs_def validScans_def)
     (simp add: demoScreen_def demoScans_def)

text \<open>
  C3, amended. The item expects \<open>A\<close> and \<open>B\<close>, two EPCs that differ from each other
  and from the three EPCs that the handler adds to every batch; the registry answers for
  the five, \<open>A\<close> and \<open>B\<close> classify as valid and the three others do not. Then the batch
  \<open>[A]\<close> on a fresh screen resolves and the session gets five records, in this order:
  \<open>A\<close> valid, \<open>B\<close> valid, and the records of \<open>EPC-E5-001\<close>, \<open>EPC-A1-001\<close> and
  \<open>UNKNOWN-EPC-123\<close>. The confirmed count is 2.
\<close>

theorem scenario_one_with_added_epcs:
  assumes "expectedEpcs item = [A, B]" and "A \<noteq> B"
    and "A \<notin> {''EPC-E5-001'', ''EPC-A1-001'', ''UNKNOWN-EPC-123''}"
    and "B \<notin> {''EPC-E5-001'', ''EPC-A1-001'', ''UNKNOWN-EPC-123''}"
    and "chk A tid = Inr ra" and "classify item ra = valid"
    and "chk B tid = Inr rb" and "classify item rb = valid"
    and "chk ''EPC-E5-001'' tid = Inr r1" and "classify item r1 \<noteq> valid"
    and "chk ''EPC-A1-001'' tid = Inr r2" and "classify item r2 \<noteq> valid"
    and "chk ''UNKNOWN-EPC-123'' tid = Inr r3" and "classify item r3 \<noteq> valid"
  shows "fst (handleScanResults chk item tid [A] initialScreen) = Resolved \<and>
         scannedEPCs (snd (handleScanResults chk item tid [A] initialScreen)) =
           [scanRecord A ra valid, scanRecord B rb valid,
            scanRecord ''EPC-E5-001'' r1 (classify item r1),
            scanRecord ''EPC-A1-001'' r2 (classify item r2),
            scanRecord ''UNKNOWN-EPC-123'' r3 (classify item r3)] \<and>
         onConfirmArgs tid item (snd (handleScanResults chk item tid [A] initialScreen))
           = (tid, item_assetId item, 2)"
proof -
  let ?rs = "[scanRecord A ra valid, scanRecord B rb valid,
            scanRecord ''EPC-E5-001'' r1 (classify item r1),
            scanRecord ''EPC-A1-001'' r2 (classify item r2),
            scanRecord ''UNKNOWN-EPC-123'' r3 (classify item r3)]"
  from assms(2-4) have ne:
    "B \<noteq> A" "''EPC-E5-001'' \<noteq> A" "''EPC-E5-001'' \<noteq> B"
    "''EPC-A1-001'' \<noteq> A" "''EPC-A1-001'' \<noteq> B"
    "''UNKNOWN-EPC-123'' \<noteq> A" "''UNKNOWN-EPC-123'' \<noteq> B"
    by auto
  have u: "uniqueEpcs item [A] = [A, B, ''EPC-E5-001'', ''EPC-A1-001'', ''UNKNOWN-EPC-123'']"
    by (simp add: uniqueEpcs_def mockNewEpcs_def assms(1) ne)
  have "newScans chk item tid [A] initialScreen = Inr ?rs"
    by (simp add: newScans_def u initialScreen_def ne assms(5-9,11,13))
  from handleScanResults_newScans [OF this]
  have res: "fst (handleScanResults chk item tid [A] initialScreen) = Resolved"
    and ses: "scannedEPCs (snd (handleScanResults chk item tid [A] initialScreen)) = ?rs"
    by (simp_all add: initialScreen_def)
  from assms(10,12,14)
  have "length (validScans (snd (handleScanResults chk item tid [A] initialScreen))) = 2"
    by (simp add: validScans_def ses scanRecord_def)
  with res ses show ?thesis by (simp add: onConfirmArgs_def)
qed

text \<open>The demonstration registry and item, with \<open>A\<close> and \<open>B\<close> the two EPCs expected.\<close>

theorem scenario_one_with_added_epcs_witness:
  "fst (handleScanResults demoRegistry demoItem ''T1'' [''A''] initialScreen) = Resolved \<and>
   length (scannedEPCs (snd (handleScanResults demoRegistry demoItem ''T1'' [''A''] initialScreen)))
     = 5 \<and>
   onConfirmArgs ''T1'' demoItem
     (snd (handleScanResults demoRegistry demoItem ''T1'' [''A''] initialScreen))
     = (''T1'', item_assetId demoItem, 2)"
proof -
  have c: "classify demoItem \<lparr>epc = e, status = status_valid,
      assetInfo = Some \<lparr>assetId = ''A2'', assetType = ''Laptop'', assetName = ''Laptop Dell''\<rparr>\<rparr>
      = valid" for e
    by (simp add: classify_def demoItem_fields)
  have "fst (handleScanResults demoRegistry demoItem ''T1'' [''A''] initialScreen) = Resolved \<and>
     scannedEPCs (snd (handleScanResults demoRegistry demoItem ''T1'' [''A''] initialScreen)) =
       [scanRecord ''A'' \<lparr>epc = ''A'', status = status_valid,
           assetInfo = Some \<lparr>assetId = ''A2'', assetType = ''Laptop'', assetName = ''Laptop Dell''\<rparr>\<rparr> valid,
        scanRecord ''B'' \<lparr>epc = ''B'', status = status_valid,
           assetInfo = Some \<lparr>assetId = ''A2'', assetType = ''Laptop'', assetName = ''Laptop Dell''\<rparr>\<rparr> valid,
        scanRecord ''EPC-E5-001'' \<lparr>epc = ''EPC-E5-001'', status = status_surplus,
           assetInfo = Some \<lparr>assetId = ''E5'', assetType = ''Chair'', assetName = ''Office Chair''\<rparr>\<rparr>
          (classify demoItem \<lparr>epc = ''EPC-E5-001'', status = status_surplus,
           assetInfo = Some \<lparr>assetId = ''E5'', assetType = ''Chair'', assetName = ''Office Chair''\<rparr>\<rparr>),
        scanRecord ''EPC-A1-001'' \<lparr>epc = ''EPC-A1-001'', status = status_valid,
           assetInfo = Some \<lparr>assetId = ''A1'', assetType = ''Monitor'', assetName = ''Monitor LG''\<rparr>\<rparr>
          (classify demoItem \<lparr>epc = ''EPC-A1-001'', status = status_valid,
           assetInfo = Some \<lparr>assetId = ''A1'', assetType = ''Monitor'', assetName = ''Monitor LG''\<rparr>\<rparr>),
        scanRecord ''UNKNOWN-EPC-123''
          \<lparr>epc = ''UNKNOWN-EPC-123'', status = status_error_not_found, assetInfo = None\<rparr>
          (classify demoItem
            \<lparr>epc = ''UNKNOWN-EPC-123'', status = status_error_not_found, assetInfo = None\<rparr>)] \<and>
     onConfirmArgs ''T1'' demoItem
       (snd (handleScanResults demoRegistry demoItem ''T1'' [''A''] initialScreen))
       = (''T1'', item_assetId demoItem, 2)"
    by (rule scenario_one_with_added_epcs [of demoItem "''A''" "''B''" demoRegistry "''T1''"])
       (simp_all add: demoItem_fields demoRegistry_def c classify_def)
  then show ?thesis by simp
qed

subsection \<open>C6: deleting the EPC of a valid record\<close>

text \<open>
  C6 says that the deletion of the EPC of a valid record leaves the session unchanged.
  The handler does not look at the status of the records it takes out: \<open>A\<close> and \<open>B\<close>
  are the valid records of the session of \<open>demoScreen\<close>, and
  \<^verbatim>\<open>handleDeleteInvalidScan\<close> called with \<open>A\<close>, as the delete button of the row of
  \<open>A\<close> calls it (line 189), takes the valid record of \<open>A\<close> out of the session.
\<close>

theorem delete_removes_valid_record:
  "map epc (validScans demoScreen) = [''A'', ''B''] \<and>
   map epc (validScans (handleDeleteInvalidScan ''A'' demoScreen)) = [''B''] \<and>
   map epc (scannedEPCs (handleDeleteInvalidScan ''A'' demoScreen))
     = [''B'', ''EPC-E5-001'', ''EPC-A1-001'', ''UNKNOWN-EPC-123''] \<and>
   handleDeleteInvalidScan ''A'' demoScreen \<noteq> demoScreen"
proof -
  have a: "map epc (validScans demoScreen) = [''A'', ''B'']"
    by (simp add: validScans_def demoScreen_def demoScans_def)
  have b: "map epc (validScans (handleDeleteInvalidScan ''A'' demoScreen)) = [''B'']"
    by (simp add: validScans_def handleDeleteInvalidScan_def demoScreen_def demoScans_def)
  have c: "map epc (scannedEPCs (handleDeleteInvalidScan ''A'' demoScreen))
     = [''B'', ''EPC-E5-001'', ''EPC-A1-001'', ''UNKNOWN-EPC-123'']"
    by (simp add: handleDeleteInvalidScan_def demoScreen_def demoScans_def)
  from a b have "handleDeleteInvalidScan ''A'' demoScreen \<noteq> demoScreen" by auto
  with a b c show ?thesis by blast
qed

subsection \<open>C7: a lookup that fails\<close>

text \<open>
  C7, as the claim states it, fails: the lookup of \<open>A\<close> answers and the lookup of \<open>B\<close>
  fails, and the batch \<open>[A, B, C]\<close> on a fresh screen ends with the failure. The session
  stays empty: \<open>B\<close> gets no \<open>invalid_not_found\<close> record, and \<open>A\<close> gets no record.
\<close>

theorem lookup_failure_counterexample:
  "failingRegistry ''B'' ''T1'' = Inl LookupFailure \<and>
   fst (handleScanResults failingRegistry demoItem ''T1'' [''A'', ''B'', ''C''] initialScreen)
     = Rejected LookupFailure \<and>
   scannedEPCs (snd (handleScanResults failingRegistry demoItem ''T1'' [''A'', ''B'', ''C'']
     initialScreen)) = []"
proof -
  have "newScans failingRegistry demoItem ''T1'' [''A'', ''B'', ''C''] initialScreen
      = Inl LookupFailure"
    by (simp add: newScans_def uniqueEpcs_def mockNewEpcs_def demoItem_fields initialScreen_def
        failingRegistry_def demoRegistry_def)
  then show ?thesis
    by (simp add: handleScanResults_def failingRegistry_def) (simp add: initialScreen_def)
qed

text \<open>
  C7, amended. When the lookup fails for an EPC that the handler processes and the session
  does not hold, the call of the handler ends with the failure: it rejects, and it adds
  no record to the session, none for the EPC whose lookup failed and none for the EPCs
  that it looked up before.
\<close>

theorem lookup_failure_aborts_batch:
  assumes "epcs \<noteq> []" and "e \<in> set (mockNewEpcs item epcs)"
    and "e \<notin> set (map epc (scannedEPCs s))" and "chk e tid = Inl err"
  shows "fst (handleScanResults chk item tid epcs s) = Rejected LookupFailure \<and>
         scannedEPCs (snd (handleScanResults chk item tid epcs s)) = scannedEPCs s"
proof -
  from assms(2) have "e \<in> set (uniqueEpcs item epcs)" by (simp add: set_uniqueEpcs)
  from scanLoop_fails [where chk = chk and tid = tid and e = e, OF this assms(3,4)] obtain err'
    where "newScans chk item tid epcs s = Inl err'" unfolding newScans_def by blast
  moreover have "err' = LookupFailure" by (cases err') simp
  ultimately show ?thesis using assms(1) by (simp add: handleScanResults_def)
qed

text \<open>The batch \<open>[A, B, C]\<close> with the registry whose lookup of \<open>B\<close> fails.\<close>

theorem lookup_failure_aborts_batch_witness:
  "[''A'', ''B'', ''C''] \<noteq> [] \<and> ''B'' \<in> set (mockNewEpcs demoItem [''A'', ''B'', ''C'']) \<and>
   ''B'' \<notin> set (map epc (scannedEPCs initialScreen)) \<and>
   failingRegistry ''B'' ''T1'' = Inl LookupFailure \<and>
   fst (handleScanResults failingRegistry demoItem ''T1'' [''A'', ''B'', ''C''] initialScreen)
     = Rejected LookupFailure \<and>
   scannedEPCs (snd (handleScanResults failingRegistry demoItem ''T1'' [''A'', ''B'', ''C'']
     initialScreen)) = scannedEPCs initialScreen"
proof -
  have h1: "[''A'', ''B'', ''C''] \<noteq> ([] :: string list)" by simp
  have h2: "''B'' \<in> set (mockNewEpcs demoItem [''A'', ''B'', ''C''])"
    by (simp add: mockNewEpcs_def)
  have h3: "''B'' \<notin> set (map epc (scannedEPCs initialScreen))"
    by (simp add: initialScreen_def)
  have h4: "failingRegistry ''B'' ''T1'' = Inl LookupFailure"
    by (simp add: failingRegistry_def)
  from lookup_failure_aborts_batch
    [where chk = failingRegistry and tid = "''T1''" and e = "''B''", OF h1 h2 h3 h4] h1 h2 h3 h4
  show ?thesis by blast
qed

end
